theory Spec2Isabelle
  imports Complex_Main "HOL-Library.AList" "HOL-Library.Multiset" "HOL-Library.Log_Nat"
begin

section \<open>The World Bank batch summarizer of the demo dashboard\<close>

text \<open>
  The development embeds three pieces of the dashboard:
  \<^item> \<open>fetch_country_data\<close> and the \<open>Run Batch Analysis\<close> loop of
    \<^verbatim>\<open>pages/3_Automation.py\<close>;
  \<^item> \<open>fetch_wb_data\<close> and the year filter applied by its caller in
    \<^verbatim>\<open>pages/1_Data_And_Text_Analysis.py\<close>;
  \<^item> the sentiment labelling loop and its three counters in the same page.

  Conventions of the embedding.
  \<^item> A Python exception is a value \<open>Inl e\<close> of the sum \<open>py_exn + 'a\<close>.
  \<^item> The network is a function \<open>web\<close> from the requested URL to what
    \<^verbatim>\<open>requests.get\<close> does with it: raise, or hand back a response.
  \<^item> A Python float or a numpy double is the rational number it denotes. An operation
    on doubles rounds its exact result to the nearest double, ties to even (\<open>fl\<close>).
    Infinities, NaN, the sign of zero and overflow are not modelled. The fractions
    handed to the progress bar are kept exact.
  \<^item> pandas sorts with numpy's quicksort, which fixes no order among rows of the same
    year. The sort is therefore a parameter \<open>qs\<close> of the model: any function that
    sorts by year (\<open>sorts_by_year\<close>).
  \<^item> A parsed payload is a JSON array whose elements are \<^verbatim>\<open>null\<close>, a non-empty JSON
    object (the page metadata, or the error message of the API) or an array of
    records with the keys \<^verbatim>\<open>date\<close> (a string) and \<^verbatim>\<open>value\<close> (a number or
    \<^verbatim>\<open>null\<close>).
\<close>

subsection \<open>Exceptions, responses, payloads\<close>

datatype py_exn =
    Timeout
  | ConnectionError
  | HTTPError nat
  | JSONDecodeError
  | IndexError
  | KeyError string
  | TypeError
  | ValueError

record wb_record =
  wb_date :: string
  wb_value :: "rat option"

datatype element = Null | Meta | Rows "wb_record list"

record response =
  status_code :: nat
  json :: "element list option"

type_synonym web = "string \<Rightarrow> py_exn + response"

definition requests_get :: "web \<Rightarrow> string \<Rightarrow> py_exn + response" where
  "requests_get w url = w url"

text \<open>\<^verbatim>\<open>response.raise_for_status()\<close>: an \<open>HTTPError\<close> for a 4xx or 5xx status.\<close>

definition raise_for_status :: "response \<Rightarrow> py_exn + unit" where
  "raise_for_status r =
     (if 400 \<le> status_code r \<and> status_code r < 600 then Inl (HTTPError (status_code r))
      else Inr ())"

text \<open>\<^verbatim>\<open>response.json()\<close>: a body that is not JSON (\<open>json r = None\<close>) raises.\<close>

definition response_json :: "response \<Rightarrow> py_exn + element list" where
  "response_json r = (case json r of None \<Rightarrow> Inl JSONDecodeError | Some raw \<Rightarrow> Inr raw)"

text \<open>Truth value of a payload element: \<^verbatim>\<open>None\<close> and the empty list are false.\<close>

fun truthy :: "element \<Rightarrow> bool" where
  "truthy Null = False"
| "truthy Meta = True"
| "truthy (Rows rs) = (rs \<noteq> [])"

subsection \<open>Python's \<open>int\<close> on a string\<close>

text \<open>
  \<^verbatim>\<open>int(s)\<close> for a string: surrounding whitespace is dropped, one sign is allowed, then
  decimal digits, with single underscores between digits. Anything else is a
  \<open>ValueError\<close> (here \<open>None\<close>). Only ASCII is modelled.
\<close>

definition py_space :: "char \<Rightarrow> bool" where
  "py_space c = (let n = (of_char c :: nat) in (9 \<le> n \<and> n \<le> 13) \<or> (28 \<le> n \<and> n \<le> 32))"

definition py_digit :: "char \<Rightarrow> bool" where
  "py_digit c = (let n = (of_char c :: nat) in 48 \<le> n \<and> n \<le> 57)"

definition digit_val :: "char \<Rightarrow> nat" where
  "digit_val c = of_char c - 48"

definition strip :: "string \<Rightarrow> string" where
  "strip s = rev (dropWhile py_space (rev (dropWhile py_space s)))"

fun py_digits :: "string \<Rightarrow> nat \<Rightarrow> nat option" where
  "py_digits [] acc = Some acc"
| "py_digits (c # cs) acc =
     (if py_digit c then py_digits cs (10 * acc + digit_val c)
      else if c = CHR ''_'' \<and> cs \<noteq> [] \<and> py_digit (hd cs) then py_digits cs acc
      else None)"

definition py_unsigned :: "string \<Rightarrow> nat option" where
  "py_unsigned s = (case s of [] \<Rightarrow> None | c # cs \<Rightarrow> if py_digit c then py_digits s 0 else None)"

definition py_int :: "string \<Rightarrow> int option" where
  "py_int s =
     (case strip s of
        [] \<Rightarrow> None
      | c # cs \<Rightarrow>
          if c = CHR ''-'' then map_option (\<lambda>n. - int n) (py_unsigned cs)
          else if c = CHR ''+'' then map_option int (py_unsigned cs)
          else map_option int (py_unsigned (c # cs)))"

subsection \<open>Double precision\<close>

text \<open>Rounding a rational to the nearest integer, ties to even.\<close>

definition round_half_even :: "rat \<Rightarrow> int" where
  "round_half_even x =
     (let f = \<lfloor>x\<rfloor>; d = x - of_int f
      in if d < 1 / 2 then f else if 1 / 2 < d then f + 1 else if even f then f else f + 1)"

text \<open>
  For \<open>x > 0\<close>, \<open>binade x\<close> is the exponent \<open>e\<close> with \<open>2\<^sup>e \<le> x < 2\<^sup>e\<^sup>+\<^sup>1\<close>. A double has
  53 significant bits, and exponents below -1022 share the spacing of the
  subnormal numbers: \<open>ulp x\<close> is the distance between the doubles around \<open>x\<close>.
\<close>

definition binade :: "rat \<Rightarrow> int" where
  "binade x = (if 1 \<le> x then bitlen \<lfloor>x\<rfloor> - 1 else - bitlen (\<lceil>1 / x\<rceil> - 1))"

definition ulp :: "rat \<Rightarrow> rat" where
  "ulp x = 2 powi (max (binade x) (- 1022) - 52)"

definition fl_pos :: "rat \<Rightarrow> rat" where
  "fl_pos x = of_int (round_half_even (x / ulp x)) * ulp x"

text \<open>\<open>fl x\<close>: the double nearest to \<open>x\<close>, ties to even.\<close>

definition fl :: "rat \<Rightarrow> rat" where
  "fl x = (if x = 0 then 0 else if 0 < x then fl_pos x else - fl_pos (- x))"

definition fadd :: "rat \<Rightarrow> rat \<Rightarrow> rat" where
  "fadd a b = fl (a + b)"

definition fmul :: "rat \<Rightarrow> rat \<Rightarrow> rat" where
  "fmul a b = fl (a * b)"

definition fdiv :: "rat \<Rightarrow> rat \<Rightarrow> rat" where
  "fdiv a b = fl (a / b)"

text \<open>\<^verbatim>\<open>numpy.rint\<close>: the nearest integer, ties to even, as a double.\<close>

definition rint :: "rat \<Rightarrow> rat" where
  "rint a = of_int (round_half_even a)"

text \<open>
  \<^verbatim>\<open>round(x, decimals)\<close> for a numpy double \<open>x\<close>, as the statistics of a frame are:
  numpy multiplies by the power of ten, applies \<^verbatim>\<open>rint\<close> and divides, each step a
  double operation.
\<close>

definition np_round :: "rat \<Rightarrow> nat \<Rightarrow> rat" where
  "np_round x decimals = fdiv (rint (fmul x (10 ^ decimals))) (10 ^ decimals)"

text \<open>
  \<^verbatim>\<open>round(x, ndigits)\<close> for a Python float \<open>x\<close>: the exact value of \<open>x\<close> is rounded to
  \<open>ndigits\<close> decimals, ties to even, and the double nearest to that decimal returned.
\<close>

definition py_round :: "rat \<Rightarrow> nat \<Rightarrow> rat" where
  "py_round x ndigits = fl (of_int (round_half_even (x * 10 ^ ndigits)) / 10 ^ ndigits)"

text \<open>
  The sum of a column of doubles, as numpy's \<^verbatim>\<open>add.reduce\<close> forms it (pairwise
  summation): fewer than eight values are added in sequence; up to 128 values go
  through eight running sums, combined in a fixed tree, then the rest in sequence;
  a longer column is split in two.
\<close>

fun seq_sum :: "rat \<Rightarrow> rat list \<Rightarrow> rat" where
  "seq_sum res [] = res"
| "seq_sum res (a # as) = seq_sum (fadd res a) as"

function accumulate :: "rat list \<Rightarrow> rat list \<Rightarrow> rat list \<times> rat list" where
  "accumulate r as =
     (if length as < 8 then (r, as)
      else accumulate (map (\<lambda>(x, y). fadd x y) (zip r (take 8 as))) (drop 8 as))"
  by pat_completeness auto
termination
  by (relation "measure (\<lambda>(r, as). length as)") auto

declare accumulate.simps [simp del]

definition block_sum :: "rat list \<Rightarrow> rat" where
  "block_sum as =
     (let (r, rest) = accumulate (take 8 as) (drop 8 as);
          res = fadd (fadd (fadd (r ! 0) (r ! 1)) (fadd (r ! 2) (r ! 3)))
                     (fadd (fadd (r ! 4) (r ! 5)) (fadd (r ! 6) (r ! 7)))
      in seq_sum res rest)"

function pairwise_sum :: "rat list \<Rightarrow> rat" where
  "pairwise_sum as =
     (if length as < 8 then seq_sum 0 as
      else if length as \<le> 128 then block_sum as
      else (let n2 = length as div 2 - (length as div 2) mod 8
            in fadd (pairwise_sum (take n2 as)) (pairwise_sum (drop n2 as))))"
  by pat_completeness auto
termination
  by (relation "measure length") auto

declare pairwise_sum.simps [simp del]

subsection \<open>Data frames\<close>

record row =
  Year :: int
  Value :: rat

text \<open>
  \<^verbatim>\<open>pd.DataFrame(records)\<close> takes its columns from the keys of the dictionaries: a
  frame built from no dictionary has no column. \<open>vname\<close> is the key of the value
  column (\<^verbatim>\<open>"Value"\<close> in the automation page, the indicator's name in the data page).
\<close>

record dataframe =
  columns :: "string list"
  rows :: "row list"

definition DataFrame :: "string \<Rightarrow> row list \<Rightarrow> dataframe" where
  "DataFrame vname records =
     \<lparr>columns = (if records = [] then [] else [''Year'', vname]), rows = records\<rparr>"

text \<open>
  What the model asks of the sort: the years of the result ascend, and the result
  holds the same rows. Nothing is asked about rows of the same year.
\<close>

type_synonym sorter = "row list \<Rightarrow> row list"

definition sorts_by_year :: "sorter \<Rightarrow> bool" where
  "sorts_by_year qs = (\<forall>xs. sorted (map Year (qs xs)) \<and> mset (qs xs) = mset xs)"

text \<open>
  \<^verbatim>\<open>df.sort_values("Year")\<close>: a \<open>KeyError\<close> when the frame has no such column;
  otherwise the rows as the sort \<open>qs\<close> leaves them.
\<close>

definition sort_values_Year :: "sorter \<Rightarrow> dataframe \<Rightarrow> py_exn + dataframe" where
  "sort_values_Year qs df =
     (if ''Year'' \<in> set (columns df) then Inr (df\<lparr>rows := qs (rows df)\<rparr>)
      else Inl (KeyError ''Year''))"

text \<open>
  \<^verbatim>\<open>df['Value'].mean()\<close>: pandas divides the sum of the column by the number of its
  values, in doubles (the optional bottleneck accelerator is not modelled).
  \<^verbatim>\<open>min()\<close> and \<^verbatim>\<open>max()\<close> pick a value of the column.
\<close>

definition col_mean :: "rat list \<Rightarrow> rat" where
  "col_mean vs = fdiv (pairwise_sum vs) (of_nat (length vs))"

fun col_min :: "rat list \<Rightarrow> rat" where
  "col_min (v # vs) = fold min vs v"

fun col_max :: "rat list \<Rightarrow> rat" where
  "col_max (v # vs) = fold max vs v"

subsection \<open>\<open>fetch_country_data\<close> (automation page)\<close>

definition wb_url :: "string \<Rightarrow> string \<Rightarrow> string \<Rightarrow> string" where
  "wb_url iso2 indicator_code per_page =
     ''https://api.worldbank.org/v2/country/'' @ iso2 @ ''/indicator/'' @ indicator_code
       @ ''?format=json&per_page='' @ per_page"

text \<open>
  \<^verbatim>\<open>for r in raw[1]\<close>: \<^verbatim>\<open>None\<close> is not iterable; iterating the metadata object yields
  its keys, strings, on which \<^verbatim>\<open>r['value']\<close> is a \<open>TypeError\<close> as well.
\<close>

fun iter_records :: "element \<Rightarrow> py_exn + wb_record list" where
  "iter_records Null = Inl TypeError"
| "iter_records Meta = Inl TypeError"
| "iter_records (Rows rs) = Inr rs"

text \<open>
  The list comprehension of lines 87 to 91. The condition is evaluated left to right:
  \<^verbatim>\<open>int(r['date'])\<close> is reached only for a record whose value is not \<^verbatim>\<open>None\<close>, and it
  raises \<open>ValueError\<close> on a date that is not a number.
\<close>

fun build_records :: "int \<times> int \<Rightarrow> wb_record list \<Rightarrow> py_exn + row list" where
  "build_records year_range [] = Inr []"
| "build_records year_range (r # rs) =
     (case wb_value r of
        None \<Rightarrow> build_records year_range rs
      | Some v \<Rightarrow>
          (case py_int (wb_date r) of
             None \<Rightarrow> Inl ValueError
           | Some y \<Rightarrow>
               if fst year_range \<le> y \<and> y \<le> snd year_range
               then (case build_records year_range rs of
                       Inl e \<Rightarrow> Inl e
                     | Inr records \<Rightarrow> Inr (\<lparr>Year = y, Value = v\<rparr> # records))
               else build_records year_range rs))"

record summary =
  Country :: string
  Mean :: rat
  Min' :: rat
  Max' :: rat
  Latest_value :: rat
  Latest_year :: rat

record result = summary +
  data :: dataframe

text \<open>
  Lines 93 to 106: the summarising tail of \<open>fetch_country_data\<close>, from the emptiness
  test on. \<^verbatim>\<open>df.iloc[-1]\<close> is the last row of the sorted frame; as a row of a frame with
  a float column its year is converted to a double, and rounded like the rest.
\<close>

definition summarize :: "sorter \<Rightarrow> string \<Rightarrow> row list \<Rightarrow> py_exn + result option" where
  "summarize qs country_name records =
     (if records = [] then Inr None
      else case sort_values_Year qs (DataFrame ''Value'' records) of
             Inl e \<Rightarrow> Inl e
           | Inr df \<Rightarrow>
               Inr (Some \<lparr>Country = country_name,
                          Mean = np_round (col_mean (map Value (rows df))) 2,
                          Min' = np_round (col_min (map Value (rows df))) 2,
                          Max' = np_round (col_max (map Value (rows df))) 2,
                          Latest_value = np_round (Value (last (rows df))) 2,
                          Latest_year = np_round (fl (of_int (Year (last (rows df))))) 2,
                          data = df\<rparr>))"

definition fetch_country_data ::
  "sorter \<Rightarrow> web \<Rightarrow> string \<Rightarrow> string \<Rightarrow> string \<Rightarrow> string \<Rightarrow> int \<times> int
     \<Rightarrow> py_exn + result option" where
  "fetch_country_data qs w iso2 iso3 country_name indicator_code year_range =
     (case requests_get w (wb_url iso2 indicator_code ''100'') of
        Inl e \<Rightarrow> Inl e
      | Inr response \<Rightarrow>
          (case response_json response of
             Inl e \<Rightarrow> Inl e
           | Inr raw \<Rightarrow>
               if length raw < 2 \<or> \<not> truthy (raw ! 1) then Inr None
               else (case iter_records (raw ! 1) of
                       Inl e \<Rightarrow> Inl e
                     | Inr rs \<Rightarrow>
                         (case build_records year_range rs of
                            Inl e \<Rightarrow> Inl e
                          | Inr records \<Rightarrow> summarize qs country_name records))))"

subsection \<open>The batch loop\<close>

text \<open>
  The state of a run: the two accumulators of the loop and the values handed to the
  progress bar, in order. \<open>full_series\<close> is a dictionary in insertion order.
\<close>

record batch =
  results :: "summary list"
  full_series :: "(string \<times> dataframe) list"
  progress :: "rat list"

datatype run = Completed batch | Raised py_exn batch

type_synonym entity = "string \<times> string \<times> string"

text \<open>
  The body of the \<^verbatim>\<open>for\<close> loop of lines 114 to 119, from index \<open>i\<close> of
  \<^verbatim>\<open>enumerate\<close> on; \<open>ntotal\<close> is \<^verbatim>\<open>len(wb_countries)\<close>. The loop has no
  \<^verbatim>\<open>try\<close>: an exception of the fetch ends it.
\<close>

fun batch_loop ::
  "sorter \<Rightarrow> web \<Rightarrow> string \<Rightarrow> int \<times> int \<Rightarrow> nat \<Rightarrow> nat \<Rightarrow> entity list \<Rightarrow> batch \<Rightarrow> run" where
  "batch_loop qs w indicator_code year_range ntotal i [] b = Completed b"
| "batch_loop qs w indicator_code year_range ntotal i ((country_name, iso2, iso3) # es) b =
     (let b1 = b\<lparr>progress := progress b @ [of_nat i / of_nat ntotal]\<rparr>
      in case fetch_country_data qs w iso2 iso3 country_name indicator_code year_range of
           Inl e \<Rightarrow> Raised e b1
         | Inr None \<Rightarrow> batch_loop qs w indicator_code year_range ntotal (Suc i) es b1
         | Inr (Some result) \<Rightarrow>
             batch_loop qs w indicator_code year_range ntotal (Suc i) es
               (b1\<lparr>full_series := AList.update country_name (data result) (full_series b1),
                    results := results b1 @ [summary.truncate result]\<rparr>))"

text \<open>
  Lines 109 to 121: the bar starts at 0, the loop runs, and 1.0 is reported after it.
\<close>

definition run_batch ::
  "sorter \<Rightarrow> web \<Rightarrow> string \<Rightarrow> int \<times> int \<Rightarrow> entity list \<Rightarrow> run" where
  "run_batch qs w indicator_code year_range entities =
     (case batch_loop qs w indicator_code year_range (length entities) 0 entities
             \<lparr>results = [], full_series = [], progress = [0]\<rparr> of
        Raised e b \<Rightarrow> Raised e b
      | Completed b \<Rightarrow> Completed (b\<lparr>progress := progress b @ [1]\<rparr>))"

definition wb_countries :: "entity list" where
  "wb_countries =
     [(''Albania'', ''AL'', ''ALB''),
      (''Bosnia and Herzegovina'', ''BA'', ''BIH''),
      (''Kosovo'', ''XK'', ''XKX''),
      (''Montenegro'', ''ME'', ''MNE''),
      (''North Macedonia'', ''MK'', ''MKD''),
      (''Serbia'', ''RS'', ''SRB'')]"

fun batch_of :: "run \<Rightarrow> batch" where
  "batch_of (Completed b) = b"
| "batch_of (Raised e b) = b"

fun raised :: "run \<Rightarrow> py_exn option" where
  "raised (Completed b) = None"
| "raised (Raised e b) = Some e"

subsection \<open>\<open>fetch_wb_data\<close> and its caller (data page)\<close>

text \<open>\<^verbatim>\<open>raw[1]\<close> with no guard: an \<open>IndexError\<close> on a payload of fewer than two elements.\<close>

definition subscript1 :: "element list \<Rightarrow> py_exn + element" where
  "subscript1 raw = (if length raw < 2 then Inl IndexError else Inr (raw ! 1))"

text \<open>The list comprehension of lines 79 to 82: no year range here.\<close>

fun wb_rows :: "wb_record list \<Rightarrow> py_exn + row list" where
  "wb_rows [] = Inr []"
| "wb_rows (r # rs) =
     (case wb_value r of
        None \<Rightarrow> wb_rows rs
      | Some v \<Rightarrow>
          (case py_int (wb_date r) of
             None \<Rightarrow> Inl ValueError
           | Some y \<Rightarrow>
               (case wb_rows rs of
                  Inl e \<Rightarrow> Inl e
                | Inr records \<Rightarrow> Inr (\<lparr>Year = y, Value = v\<rparr> # records))))"

text \<open>
  \<open>indicator_name\<close> is a key of \<^verbatim>\<open>indicator_options\<close>, the name of the value column.
\<close>

definition fetch_wb_data ::
  "sorter \<Rightarrow> web \<Rightarrow> string \<Rightarrow> string \<Rightarrow> string \<Rightarrow> py_exn + dataframe" where
  "fetch_wb_data qs w country_code indicator_code indicator_name =
     (case requests_get w (wb_url country_code indicator_code ''30'') of
        Inl e \<Rightarrow> Inl e
      | Inr response \<Rightarrow>
          (case raise_for_status response of
             Inl e \<Rightarrow> Inl e
           | Inr u \<Rightarrow>
               (case response_json response of
                  Inl e \<Rightarrow> Inl e
                | Inr raw \<Rightarrow>
                    (case subscript1 raw of
                       Inl e \<Rightarrow> Inl e
                     | Inr records \<Rightarrow>
                         (case iter_records records of
                            Inl e \<Rightarrow> Inl e
                          | Inr rs \<Rightarrow>
                              (case wb_rows rs of
                                 Inl e \<Rightarrow> Inl e
                               | Inr recs \<Rightarrow>
                                   sort_values_Year qs (DataFrame indicator_name recs)))))))"


subsection \<open>Sentiment labels and counters (data page)\<close>

text \<open>
  \<open>analyzer\<close> stands for \<^verbatim>\<open>analyzer.polarity_scores(headline)['compound']\<close>, a
  function of the library. The literal \<^verbatim>\<open>0.05\<close> of the source is the double nearest
  to 5/100.
\<close>

record sentiment_row =
  Headline :: string
  Score :: rat
  Sentiment :: string

definition label_of :: "rat \<Rightarrow> string" where
  "label_of compound =
     (if compound > fl (5 / 100) then ''Positive''
      else if compound < - fl (5 / 100) then ''Negative''
      else ''Neutral'')"

definition sentiment_data :: "(string \<Rightarrow> rat) \<Rightarrow> string list \<Rightarrow> sentiment_row list" where
  "sentiment_data analyzer headlines =
     map (\<lambda>headline.
            let compound = analyzer headline
            in \<lparr>Headline = headline, Score = py_round compound 3,
                Sentiment = label_of compound\<rparr>)
         headlines"

definition n_pos :: "sentiment_row list \<Rightarrow> nat" where
  "n_pos sd = length (filter (\<lambda>r. Score r > fl (5 / 100)) sd)"

definition n_neu :: "sentiment_row list \<Rightarrow> nat" where
  "n_neu sd =
     length (filter (\<lambda>r. - fl (5 / 100) \<le> Score r \<and> Score r \<le> fl (5 / 100)) sd)"

definition n_neg :: "sentiment_row list \<Rightarrow> nat" where
  "n_neg sd = length (filter (\<lambda>r. Score r < - fl (5 / 100)) sd)"

subsection \<open>The series the specification describes\<close>

text \<open>
  The fetcher's contract in the words of the specification: the observations whose
  value is present and whose period lies in the inclusive range, each as a
  (period, value) pair. It is compared with \<open>build_records\<close> below.
\<close>

definition in_range :: "int \<times> int \<Rightarrow> wb_record \<Rightarrow> bool" where
  "in_range year_range r =
     (case py_int (wb_date r) of
        None \<Rightarrow> False
      | Some y \<Rightarrow> fst year_range \<le> y \<and> y \<le> snd year_range)"

definition observation :: "wb_record \<Rightarrow> row" where
  "observation r = \<lparr>Year = the (py_int (wb_date r)), Value = the (wb_value r)\<rparr>"

definition spec_series :: "int \<times> int \<Rightarrow> wb_record list \<Rightarrow> row list" where
  "spec_series year_range rs =
     map observation (filter (\<lambda>r. wb_value r \<noteq> None \<and> in_range year_range r) rs)"

text \<open>Every date that the code converts is a number: no \<open>ValueError\<close>.\<close>

definition dates_ok :: "wb_record list \<Rightarrow> bool" where
  "dates_ok rs = list_all (\<lambda>r. wb_value r = None \<or> py_int (wb_date r) \<noteq> None) rs"

subsection \<open>What a run leaves behind\<close>

text \<open>
  The exception of a run, if any, with the two accumulators; and the fraction that
  iteration \<open>i\<close> of \<open>ntotal\<close> hands to the progress bar.
\<close>

definition outcome :: "run \<Rightarrow> py_exn option \<times> summary list \<times> (string \<times> dataframe) list" where
  "outcome r = (raised r, results (batch_of r), full_series (batch_of r))"

definition fraction :: "nat \<Rightarrow> nat \<Rightarrow> rat" where
  "fraction ntotal i = of_nat i / of_nat ntotal"

subsection \<open>A sample network\<close>

text \<open>
  Concrete inputs for the closed theorems below. The API lists the newest year first.
  The request for Albania times out; Kosovo gets the one-element error message of
  the API; Montenegro three observations of 0.045; North Macedonia three
  observations whose mean is 5/3; Serbia records without values; Croatia a 502 page
  that is not JSON; every other request the series {(2020, 10), (2021, 20)} with an
  observation for 2024 and a \<^verbatim>\<open>null\<close> for 2019. \<open>demo_sort\<close> is one sort that meets
  \<open>sorts_by_year\<close>.
\<close>

definition demo_sort :: sorter where
  "demo_sort = sort_key Year"

definition demo_indicator :: string where
  "demo_indicator = ''NY.GDP.PCAP.CD''"

definition demo_rows :: "wb_record list" where
  "demo_rows =
     [\<lparr>wb_date = ''2024'', wb_value = Some 1000\<rparr>,
      \<lparr>wb_date = ''2021'', wb_value = Some 20\<rparr>,
      \<lparr>wb_date = ''2020'', wb_value = Some 10\<rparr>,
      \<lparr>wb_date = ''2019'', wb_value = None\<rparr>]"

definition thirds_rows :: "wb_record list" where
  "thirds_rows =
     [\<lparr>wb_date = ''2022'', wb_value = Some 2\<rparr>,
      \<lparr>wb_date = ''2021'', wb_value = Some 2\<rparr>,
      \<lparr>wb_date = ''2020'', wb_value = Some 1\<rparr>]"

definition cents_rows :: "wb_record list" where
  "cents_rows =
     [\<lparr>wb_date = ''2022'', wb_value = Some (fl (45 / 1000))\<rparr>,
      \<lparr>wb_date = ''2021'', wb_value = Some (fl (45 / 1000))\<rparr>,
      \<lparr>wb_date = ''2020'', wb_value = Some (fl (45 / 1000))\<rparr>]"

definition null_rows :: "wb_record list" where
  "null_rows =
     [\<lparr>wb_date = ''2023'', wb_value = None\<rparr>,
      \<lparr>wb_date = ''2022'', wb_value = None\<rparr>]"

definition demo_web :: web where
  "demo_web url =
     (if url = wb_url ''AL'' demo_indicator ''100'' then Inl Timeout
      else if url = wb_url ''XK'' demo_indicator ''100''
        then Inr \<lparr>status_code = 200, json = Some [Meta]\<rparr>
      else if url = wb_url ''ME'' demo_indicator ''100''
        then Inr \<lparr>status_code = 200, json = Some [Meta, Rows cents_rows]\<rparr>
      else if url = wb_url ''MK'' demo_indicator ''100''
        then Inr \<lparr>status_code = 200, json = Some [Meta, Rows thirds_rows]\<rparr>
      else if url = wb_url ''RS'' demo_indicator ''100'' \<or> url = wb_url ''RS'' demo_indicator ''30''
        then Inr \<lparr>status_code = 200, json = Some [Meta, Rows null_rows]\<rparr>
      else if url = wb_url ''HR'' demo_indicator ''100''
        then Inr \<lparr>status_code = 502, json = None\<rparr>
      else Inr \<lparr>status_code = 200, json = Some [Meta, Rows demo_rows]\<rparr>)"



definition demo_headlines :: "string list" where
  "demo_headlines = [''Growth beats forecast'', ''Prices flat'', ''Exports collapse'']"

definition demo_analyzer :: "string \<Rightarrow> rat" where
  "demo_analyzer h =
     (if h = ''Growth beats forecast'' then fl (502 / 10000)
      else if h = ''Exports collapse'' then - fl (4939 / 10000)
      else 0)"

text \<open>What the two pages obtain for Bosnia and Herzegovina on that network.\<close>

definition demo_result :: result where
  "demo_result =
     \<lparr>Country = ''Bosnia and Herzegovina'', Mean = 15, Min' = 10, Max' = 20,
      Latest_value = 20, Latest_year = 2021,
      data = \<lparr>columns = [''Year'', ''Value''],
              rows = [\<lparr>Year = 2020, Value = 10\<rparr>, \<lparr>Year = 2021, Value = 20\<rparr>]\<rparr>\<rparr>"

definition demo_frame :: dataframe where
  "demo_frame =
     \<lparr>columns = [''Year'', ''GDP (US$)''],
      rows = [\<lparr>Year = 2020, Value = 10\<rparr>, \<lparr>Year = 2021, Value = 20\<rparr>,
              \<lparr>Year = 2024, Value = 1000\<rparr>]\<rparr>"

definition demo_entities :: "entity list" where
  "demo_entities =
     [(''Bosnia and Herzegovina'', ''BA'', ''BIH''),
      (''Kosovo'', ''XK'', ''XKX''),
      (''North Macedonia'', ''MK'', ''MKD'')]"

section \<open>Auxiliary facts\<close>

subsection \<open>Rounding to an integer\<close>

lemma round_half_even_of_int: "round_half_even (of_int k) = k"
  by (simp add: round_half_even_def)

lemma round_half_even_bounds: "\<lfloor>x\<rfloor> \<le> round_half_even x \<and> round_half_even x \<le> \<lfloor>x\<rfloor> + 1"
  by (simp add: round_half_even_def Let_def)

lemma round_half_even_mono:
  assumes "x \<le> y"
  shows "round_half_even x \<le> round_half_even y"
proof (cases "\<lfloor>x\<rfloor> = \<lfloor>y\<rfloor>")
  case True
  then show ?thesis using assms by (auto simp: round_half_even_def Let_def)
next
  case False
  then have "\<lfloor>x\<rfloor> < \<lfloor>y\<rfloor>" using assms floor_mono [of x y] by linarith
  then show ?thesis
    using round_half_even_bounds [of x] round_half_even_bounds [of y] by linarith
qed

subsection \<open>Doubles\<close>

lemma powi_nonneg: "0 \<le> k \<Longrightarrow> (2::rat) powi k = 2 ^ nat k"
  by (simp add: power_int_def)

lemma powi_neg: "0 \<le> k \<Longrightarrow> (2::rat) powi (- k) = 1 / 2 ^ nat k"
  by (simp only: power_int_minus_divide powi_nonneg)




lemma ulp_pos: "0 < ulp x"
  unfolding ulp_def by (rule zero_less_power_int) simp





lemma fl_pos_nonneg:
  assumes "0 < x"
  shows "0 \<le> fl_pos x"
proof -
  have "(0::rat) \<le> x / ulp x" using assms ulp_pos [of x] by simp
  then have "round_half_even (of_int 0) \<le> round_half_even (x / ulp x)"
    by (intro round_half_even_mono) simp
  then have "0 \<le> round_half_even (x / ulp x)" by (simp only: round_half_even_of_int)
  then show ?thesis unfolding fl_pos_def using ulp_pos [of x] by simp
qed



lemma fl_pos_of_int:
  assumes "0 < k" and "k < 2 ^ 53"
  shows "fl_pos (of_int k) = of_int k"
proof -
  let ?e = "bitlen k - 1"
  have b1: "1 \<le> bitlen k" using assms(1) by (simp add: bitlen_alt_def)
  have "bitlen k \<le> 53" using assms(2) by (simp add: bitlen_le_iff_power)
  then have e: "0 \<le> ?e" "?e \<le> 52" using b1 by simp_all
  have "binade (of_int k) = ?e" using assms(1) by (simp add: binade_def)
  then have u: "ulp (of_int k) = 2 powi (?e - 52)" using e by (simp add: ulp_def)
  have "(2::rat) powi (?e - 52) = 1 / 2 ^ nat (52 - ?e)"
  proof -
    have "?e - 52 = - (52 - ?e)" by linarith
    then have "(2::rat) powi (?e - 52) = 2 powi (- (52 - ?e))" by (rule arg_cong)
    also have "\<dots> = 1 / 2 ^ nat (52 - ?e)" using e by (intro powi_neg) simp
    finally show ?thesis .
  qed
  then have u': "ulp (of_int k) = 1 / 2 ^ nat (52 - ?e)" using u by simp
  have q: "of_int k / ulp (of_int k) = (of_int (k * 2 ^ nat (52 - ?e)) :: rat)"
    unfolding u' by simp
  show ?thesis
    unfolding fl_pos_def q round_half_even_of_int unfolding u' by simp
qed

lemma fl_of_int:
  assumes "\<bar>k\<bar> < 2 ^ 53"
  shows "fl (of_int k) = of_int k"
proof -
  consider "k = 0" | "0 < k" | "k < 0" by linarith
  then show ?thesis
  proof cases
    case 1
    then show ?thesis by (simp add: fl_def)
  next
    case 2
    then show ?thesis using assms fl_pos_of_int [of k] by (simp add: fl_def)
  next
    case 3
    then have "fl_pos (of_int (- k)) = of_int (- k)" using assms by (intro fl_pos_of_int) simp_all
    then show ?thesis using 3 by (simp add: fl_def)
  qed
qed


lemma np_round_of_int:
  assumes "\<bar>k\<bar> * 10 ^ n < 2 ^ 53"
  shows "np_round (of_int k) n = of_int k"
proof -
  have "\<bar>k\<bar> * 1 \<le> \<bar>k\<bar> * 10 ^ n" by (intro mult_left_mono) simp_all
  then have k: "\<bar>k\<bar> < 2 ^ 53" using assms by simp
  have kn: "\<bar>k * 10 ^ n\<bar> < 2 ^ 53" using assms by (simp add: abs_mult)
  have "fmul (of_int k) (10 ^ n) = fl (of_int (k * 10 ^ n))" by (simp add: fmul_def)
  also have "\<dots> = of_int (k * 10 ^ n)" using kn by (rule fl_of_int)
  finally have m: "fmul (of_int k) (10 ^ n) = of_int (k * 10 ^ n)" .
  have "rint (of_int (k * 10 ^ n)) / 10 ^ n = (of_int k :: rat)"
    unfolding rint_def round_half_even_of_int by simp
  then show ?thesis
    unfolding np_round_def fdiv_def m using fl_of_int [OF k] by simp
qed

lemma fl_nonneg: "0 \<le> x \<Longrightarrow> 0 \<le> fl x"
  using fl_pos_nonneg [of x] by (simp add: fl_def)

subsection \<open>Column statistics and sorting\<close>

lemma col_min_eq: "vs \<noteq> [] \<Longrightarrow> col_min vs = Min (set vs)"
  by (cases vs) (simp_all add: Min.set_eq_fold del: set_simps)

lemma col_max_eq: "vs \<noteq> [] \<Longrightarrow> col_max vs = Max (set vs)"
  by (cases vs) (simp_all add: Max.set_eq_fold del: set_simps)

lemma last_sorted_Max:
  "sorted xs \<Longrightarrow> xs \<noteq> [] \<Longrightarrow> last xs = Max (set (xs :: int list))"
proof (induction xs)
  case Nil
  then show ?case by simp
next
  case (Cons x xs)
  show ?case
  proof (cases "xs = []")
    case True
    then show ?thesis by simp
  next
    case False
    have "last xs = Max (set xs)" using Cons False by simp
    moreover have "x \<le> Max (set xs)"
    proof -
      have "hd xs \<in> set xs" using False by simp
      then have "x \<le> hd xs" and "hd xs \<le> Max (set xs)" using Cons.prems by simp_all
      then show ?thesis by simp
    qed
    ultimately show ?thesis using False by (simp add: max_absorb2)
  qed
qed

lemma sorts_by_yearD:
  assumes "sorts_by_year qs"
  shows "sorted (map Year (qs xs))" and "mset (qs xs) = mset xs"
  using assms by (simp_all add: sorts_by_year_def)

lemma sorts_by_year_set:
  assumes "sorts_by_year qs"
  shows "set (qs xs) = set xs"
  using sorts_by_yearD(2) [OF assms, of xs] by (rule mset_eq_setD)

lemma sorts_by_year_Nil:
  assumes "sorts_by_year qs"
  shows "qs xs = [] \<longleftrightarrow> xs = []"
  using sorts_by_year_set [OF assms, of xs] by (metis set_empty)

lemma sorts_by_year_demo: "sorts_by_year demo_sort"
  by (simp add: sorts_by_year_def demo_sort_def)

lemma last_sorted_rows_Max:
  assumes "sorts_by_year qs" and "rs \<noteq> []"
  shows "Year (last (qs rs)) = Max (Year ` set rs)"
proof -
  have ne: "qs rs \<noteq> []" using assms by (simp add: sorts_by_year_Nil)
  have "last (map Year (qs rs)) = Max (set (map Year (qs rs)))"
    using ne sorts_by_yearD(1) [OF assms(1), of rs] by (intro last_sorted_Max) simp_all
  then show ?thesis using ne by (simp add: last_map sorts_by_year_set [OF assms(1)])
qed

lemma build_records_spec:
  "dates_ok rs \<Longrightarrow> build_records yr rs = Inr (spec_series yr rs)"
  by (induction rs)
    (auto simp: dates_ok_def spec_series_def in_range_def observation_def split: option.splits)

lemma build_records_dates_ok:
  "build_records yr rs = Inr records \<Longrightarrow> dates_ok rs"
  by (induction rs arbitrary: records)
    (auto simp: dates_ok_def split: option.splits if_splits sum.splits)

lemma build_records_raises:
  "build_records yr rs = Inl e \<Longrightarrow> e = ValueError \<and> \<not> dates_ok rs"
  by (induction rs)
    (auto simp: dates_ok_def split: option.splits if_splits sum.splits)




subsection \<open>The batch loop\<close>


lemma batch_loop_append_Completed:
  "batch_loop qs w ind yr n i es1 b = Completed b' \<Longrightarrow>
   batch_loop qs w ind yr n i (es1 @ es2) b = batch_loop qs w ind yr n (i + length es1) es2 b'"
proof (induction es1 arbitrary: i b)
  case Nil
  then show ?case by simp
next
  case (Cons ent es1)
  obtain nm a c where ent: "ent = (nm, a, c)" by (cases ent) auto
  show ?case
  proof (cases "fetch_country_data qs w a c nm ind yr")
    case (Inl e')
    then show ?thesis using Cons.prems by (simp add: ent Let_def)
  next
    case (Inr ro)
    then show ?thesis using Cons.prems
      by (cases ro) (simp_all add: ent Let_def Cons.IH)
  qed
qed

lemma batch_loop_outcome_cong:
  "results b = results b' \<Longrightarrow> full_series b = full_series b' \<Longrightarrow>
   outcome (batch_loop qs w ind yr n i es b) = outcome (batch_loop qs w ind yr n' i' es b')"
proof (induction es arbitrary: i i' b b')
  case Nil
  then show ?case by (simp add: outcome_def)
next
  case (Cons ent es)
  obtain nm a c where ent: "ent = (nm, a, c)" by (cases ent) auto
  show ?case
  proof (cases "fetch_country_data qs w a c nm ind yr")
    case (Inl e)
    then show ?thesis using Cons.prems by (simp add: ent outcome_def)
  next
    case (Inr ro)
    show ?thesis
    proof (cases ro)
      case None
      then show ?thesis using Inr Cons.prems
        by (simp add: ent Let_def Cons.IH)
    next
      case (Some res)
      then show ?thesis using Inr Cons.prems
        by (simp add: ent Let_def Cons.IH)
    qed
  qed
qed

lemma batch_loop_progress_Completed:
  "batch_loop qs w ind yr n i es b = Completed b' \<Longrightarrow>
   progress b' = progress b @ map (fraction n) [i ..< i + length es]"
proof (induction es arbitrary: i b)
  case Nil
  then show ?case by simp
next
  case (Cons ent es)
  obtain nm a c where ent: "ent = (nm, a, c)" by (cases ent) auto
  obtain ro where ro: "fetch_country_data qs w a c nm ind yr = Inr ro"
    using Cons.prems by (cases "fetch_country_data qs w a c nm ind yr") (auto simp: ent Let_def)
  obtain b2 where b2: "batch_loop qs w ind yr n (Suc i) es b2 = Completed b'"
    and p2: "progress b2 = progress b @ [fraction n i]"
    using Cons.prems ro by (cases ro) (auto simp: ent Let_def fraction_def)
  have "[i ..< i + length (ent # es)] = i # [Suc i ..< Suc i + length es]"
    by (simp add: upt_conv_Cons del: upt_Suc)
  then show ?case using Cons.IH [OF b2] p2 by simp
qed

lemma batch_loop_progress_Raised:
  "batch_loop qs w ind yr n i es b = Raised e b' \<Longrightarrow>
   \<exists>k < length es. progress b' = progress b @ map (fraction n) [i ..< Suc (i + k)]"
proof (induction es arbitrary: i b)
  case Nil
  then show ?case by simp
next
  case (Cons ent es)
  obtain nm a c where ent: "ent = (nm, a, c)" by (cases ent) auto
  show ?case
  proof (cases "fetch_country_data qs w a c nm ind yr")
    case (Inl e')
    then have "progress b' = progress b @ map (fraction n) [i ..< Suc (i + 0)]"
      using Cons.prems by (auto simp: ent Let_def fraction_def)
    then show ?thesis by (intro exI [of _ 0]) simp
  next
    case (Inr ro)
    let ?b1 = "b\<lparr>progress := progress b @ [of_nat i / of_nat n]\<rparr>"
    obtain b2 where b2: "batch_loop qs w ind yr n (Suc i) es b2 = Raised e b'"
      and p2: "progress b2 = progress b @ [fraction n i]"
      using Cons.prems Inr
      by (cases ro) (auto simp: ent Let_def fraction_def)
    from Cons.IH [OF b2] obtain k where k: "k < length es"
      and pk: "progress b' = progress b2 @ map (fraction n) [Suc i ..< Suc (Suc i + k)]"
      by blast
    have "[i ..< Suc (i + Suc k)] = i # [Suc i ..< Suc (Suc i + k)]"
      by (simp add: upt_conv_Cons del: upt_Suc)
    then have "progress b' = progress b @ map (fraction n) [i ..< Suc (i + Suc k)]"
      using pk p2 by simp
    then show ?thesis using k by (intro exI [of _ "Suc k"]) simp
  qed
qed



subsection \<open>Fetching and summarising\<close>

lemma build_records_all_absent:
  "\<forall>r\<in>set rs. wb_value r = None \<Longrightarrow> build_records yr rs = Inr []"
  by (induction rs) auto

lemma wb_rows_all_absent:
  "\<forall>r\<in>set rs. wb_value r = None \<Longrightarrow> wb_rows rs = Inr []"
  by (induction rs) auto

lemma summarize_Nil: "summarize qs nm [] = Inr None"
  by (simp add: summarize_def)

lemma summarize_Cons:
  "records \<noteq> [] \<Longrightarrow>
   summarize qs nm records =
     Inr (Some \<lparr>Country = nm,
                Mean = np_round (col_mean (map Value (qs records))) 2,
                Min' = np_round (col_min (map Value (qs records))) 2,
                Max' = np_round (col_max (map Value (qs records))) 2,
                Latest_value = np_round (Value (last (qs records))) 2,
                Latest_year = np_round (fl (of_int (Year (last (qs records))))) 2,
                data = \<lparr>columns = [''Year'', ''Value''], rows = qs records\<rparr>\<rparr>)"
  by (simp add: summarize_def sort_values_Year_def DataFrame_def)

lemma fetch_country_data_rows:
  assumes "requests_get w (wb_url iso2 ind ''100'') = Inr resp" and "json resp = Some raw"
    and "2 \<le> length raw" and "raw ! 1 = Rows rs"
  shows "fetch_country_data qs w iso2 iso3 nm ind yr =
     (case build_records yr rs of Inl e \<Rightarrow> Inl e | Inr records \<Rightarrow> summarize qs nm records)"
proof (cases "rs = []")
  case True
  then show ?thesis using assms
    by (simp add: fetch_country_data_def response_json_def summarize_Nil)
next
  case False
  then show ?thesis using assms
    by (simp add: fetch_country_data_def response_json_def)
qed

subsection \<open>Whole runs\<close>

lemma outcome_run_batch:
  "outcome (run_batch qs w ind yr es) =
   outcome (batch_loop qs w ind yr (length es) 0 es \<lparr>results = [], full_series = [], progress = [0]\<rparr>)"
  by (simp add: run_batch_def outcome_def split: run.split)



lemma outcome_run_raise:
  assumes "fetch_country_data qs w a c nm ind yr = Inl e"
    and "raised (run_batch qs w ind yr es1) = None"
  shows "outcome (run_batch qs w ind yr (es1 @ (nm, a, c) # es2))
       = (Some e, results (batch_of (run_batch qs w ind yr es1)),
          full_series (batch_of (run_batch qs w ind yr es1)))"
proof -
  let ?b0 = "\<lparr>results = [], full_series = [], progress = [0]\<rparr>"
  let ?n = "length (es1 @ (nm, a, c) # es2)"
  have eq: "outcome (batch_loop qs w ind yr ?n 0 es1 ?b0) = outcome (run_batch qs w ind yr es1)"
    unfolding outcome_run_batch by (rule batch_loop_outcome_cong) simp_all
  then have "raised (batch_loop qs w ind yr ?n 0 es1 ?b0) = None"
    using assms(2) by (simp add: outcome_def)
  then obtain b' where b': "batch_loop qs w ind yr ?n 0 es1 ?b0 = Completed b'"
    by (cases "batch_loop qs w ind yr ?n 0 es1 ?b0") simp_all
  have r: "results b' = results (batch_of (run_batch qs w ind yr es1))"
    and f: "full_series b' = full_series (batch_of (run_batch qs w ind yr es1))"
    using eq b' by (simp_all add: outcome_def)
  show ?thesis
    unfolding outcome_run_batch batch_loop_append_Completed [OF b']
    using assms(1) r f by (simp add: Let_def outcome_def)
qed

lemma fraction_mono: "i \<le> j \<Longrightarrow> fraction n i \<le> fraction n j"
  by (simp add: fraction_def divide_right_mono)

lemma fraction_nonneg: "0 \<le> fraction n i"
  by (simp add: fraction_def)

lemma fraction_less_1: "i < n \<Longrightarrow> fraction n i < 1"
  by (simp add: fraction_def)

lemma sorted_fractions: "sorted (map (fraction n) [i ..< j])"
  by (simp only: sorted_map) (rule sorted_wrt_mono_rel [OF _ sorted_upt], simp add: fraction_mono)

lemma run_batch_progress_Completed:
  assumes "run_batch qs w ind yr es = Completed b"
  shows "progress b = 0 # map (fraction (length es)) [0 ..< length es] @ [1]"
proof -
  let ?b0 = "\<lparr>results = [], full_series = [], progress = [0]\<rparr>"
  obtain b' where l: "batch_loop qs w ind yr (length es) 0 es ?b0 = Completed b'"
    and b: "b = b'\<lparr>progress := progress b' @ [1]\<rparr>"
    using assms by (auto simp: run_batch_def split: run.splits)
  show ?thesis using batch_loop_progress_Completed [OF l] b by simp
qed

lemma run_batch_progress_Raised:
  assumes "run_batch qs w ind yr es = Raised e b"
  shows "\<exists>k < length es. progress b = 0 # map (fraction (length es)) [0 ..< Suc k]"
proof -
  let ?b0 = "\<lparr>results = [], full_series = [], progress = [0]\<rparr>"
  have l: "batch_loop qs w ind yr (length es) 0 es ?b0 = Raised e b"
    using assms by (auto simp: run_batch_def split: run.splits)
  show ?thesis using batch_loop_progress_Raised [OF l] by simp
qed


lemma build_records_empty_range:
  "snd yr < fst yr \<Longrightarrow> build_records yr rs = Inr records \<Longrightarrow> records = []"
  by (induction rs arbitrary: records) (auto split: option.splits if_splits sum.splits)

lemma fetch_country_data_empty_range:
  assumes "snd yr < fst yr"
  shows "fetch_country_data qs w a c nm ind yr \<noteq> Inr (Some res)"
proof
  assume s: "fetch_country_data qs w a c nm ind yr = Inr (Some res)"
  then obtain rs records where b: "build_records yr rs = Inr records"
    and r: "summarize qs nm records = Inr (Some res)"
    by (auto simp: fetch_country_data_def split: sum.splits if_splits)
  have "records = []" using assms b by (rule build_records_empty_range)
  then show False using r by (simp add: summarize_Nil)
qed

lemma batch_loop_no_summary:
  assumes "\<And>nm a c res. (nm, a, c) \<in> set es \<Longrightarrow> fetch_country_data qs w a c nm ind yr \<noteq> Inr (Some res)"
  shows "results (batch_of (batch_loop qs w ind yr n i es b)) = results b
       \<and> full_series (batch_of (batch_loop qs w ind yr n i es b)) = full_series b"
  using assms
proof (induction es arbitrary: i b)
  case Nil
  then show ?case by simp
next
  case (Cons ent es)
  obtain nm a c where ent: "ent = (nm, a, c)" by (cases ent) auto
  have ih: "results (batch_of (batch_loop qs w ind yr n i' es b')) = results b'
          \<and> full_series (batch_of (batch_loop qs w ind yr n i' es b')) = full_series b'" for i' b'
    by (rule Cons.IH) (simp add: Cons.prems)
  show ?case
  proof (cases "fetch_country_data qs w a c nm ind yr")
    case (Inl e)
    then show ?thesis by (simp add: ent Let_def)
  next
    case (Inr ro)
    have "ro = None"
    proof (cases ro)
      case None
      then show ?thesis .
    next
      case (Some res)
      have "fetch_country_data qs w a c nm ind yr \<noteq> Inr (Some res)"
        by (rule Cons.prems) (simp add: ent)
      then show ?thesis using Inr Some by simp
    qed
    then show ?thesis using Inr by (simp add: ent Let_def ih)
  qed
qed

subsection \<open>The fetched series against the specified one\<close>

lemma build_records_total:
  "build_records yr rs = (if dates_ok rs then Inr (spec_series yr rs) else Inl ValueError)"
proof (cases "build_records yr rs")
  case (Inl e)
  then show ?thesis using build_records_raises by auto
next
  case (Inr records)
  then have "dates_ok rs" by (rule build_records_dates_ok)
  then show ?thesis by (simp add: build_records_spec)
qed

lemma fetch_rows_exact:
  assumes "requests_get w (wb_url iso2 ind ''100'') = Inr resp" and "json resp = Some raw"
    and "2 \<le> length raw" and "raw ! 1 = Rows rs"
    and "fetch_country_data qs w iso2 iso3 nm ind yr = Inr (Some res)"
  shows "rows (data res) = qs (spec_series yr rs)"
proof -
  have f: "(case build_records yr rs of Inl e \<Rightarrow> Inl e | Inr records \<Rightarrow> summarize qs nm records)
             = Inr (Some res)"
    using fetch_country_data_rows [OF assms(1-4)] assms(5) by simp
  then have s: "summarize qs nm (spec_series yr rs) = Inr (Some res)"
    by (simp add: build_records_total split: if_splits)
  then have "spec_series yr rs \<noteq> []" by (auto simp: summarize_Nil)
  then show ?thesis using s by (auto simp: summarize_Cons)
qed





subsection \<open>Facts for the claims\<close>

lemma np_round_examples:
  "np_round (fl (1015 / 1000)) 2 = fl (101 / 100)"
  "np_round (fl (545 / 1000)) 2 = fl (55 / 100)"
  "np_round (fl (45 / 1000)) 2 = fl (4 / 100)"
  "col_mean [fl (45 / 1000), fl (45 / 1000), fl (45 / 1000)] = 6485183463413515 / 2 ^ 57"
  "np_round (6485183463413515 / 2 ^ 57) 2 = fl (5 / 100)"
  by code_simp+

lemma latest_year_exact:
  assumes "- (2 ^ 46) \<le> y" and "y \<le> 2 ^ 46"
  shows "np_round (fl (of_int y)) 2 = of_int y"
proof -
  have a: "\<bar>y\<bar> \<le> 2 ^ 46" using assms by simp
  then have "\<bar>y\<bar> * 10 ^ 2 \<le> 2 ^ 46 * 10 ^ 2" by (intro mult_right_mono) simp_all
  also have "(2::int) ^ 46 * 10 ^ 2 < 2 ^ 53" by simp
  finally have b: "\<bar>y\<bar> * 10 ^ 2 < 2 ^ 53" .
  have "\<bar>y\<bar> < 2 ^ 53" using a by simp
  then have "fl (of_int y) = of_int y" by (rule fl_of_int)
  then show ?thesis using np_round_of_int [OF b] by simp
qed



lemma batch_loop_raised_fetch:
  "raised (batch_loop qs w ind yr n i es b) = Some e \<Longrightarrow>
   \<exists>(nm, a, c) \<in> set es. fetch_country_data qs w a c nm ind yr = Inl e"
proof (induction es arbitrary: i b)
  case Nil
  then show ?case by simp
next
  case (Cons ent es)
  obtain nm a c where ent: "ent = (nm, a, c)" by (cases ent) auto
  show ?case
  proof (cases "fetch_country_data qs w a c nm ind yr")
    case (Inl e')
    then have "e' = e" using Cons.prems by (simp add: ent Let_def)
    then show ?thesis using Inl by (auto simp: ent)
  next
    case (Inr ro)
    obtain b2 where "raised (batch_loop qs w ind yr n (Suc i) es b2) = Some e"
      using Cons.prems Inr by (cases ro) (auto simp: ent Let_def)
    from Cons.IH [OF this] show ?thesis by auto
  qed
qed

lemma batch_loop_not_raised:
  assumes "\<And>nm a c. (nm, a, c) \<in> set es \<Longrightarrow> \<not> isl (fetch_country_data qs w a c nm ind yr)"
  shows "raised (batch_loop qs w ind yr n i es b) = None"
proof (cases "raised (batch_loop qs w ind yr n i es b)")
  case None
  then show ?thesis .
next
  case (Some e)
  from batch_loop_raised_fetch [OF Some] obtain nm a c
    where "(nm, a, c) \<in> set es" and "fetch_country_data qs w a c nm ind yr = Inl e"
    by auto
  then show ?thesis using assms [of nm a c] by simp
qed

lemma raised_run_batch:
  "raised (run_batch qs w ind yr es)
     = raised (batch_loop qs w ind yr (length es) 0 es \<lparr>results = [], full_series = [], progress = [0]\<rparr>)"
  using outcome_run_batch [of qs w ind yr es] by (simp add: outcome_def)

section \<open>The claims\<close>







text \<open>
  C3, as the code has it. For a non-empty series the summary holds: the mean of the
  value column as pandas forms it in doubles (numpy's sum of the values in the order
  of the sorted frame, divided by their number); the least and the greatest of all
  values; the greatest period as latest year; and as latest value the value of an
  observation of that period. Each of them is passed through \<^verbatim>\<open>round(x, 2)\<close> on
  numpy doubles (multiply by 100, round to the nearest integer with ties to even,
  divide by 100, each step in doubles): the rounding is part of the result, and the
  mean of 1, 2, 2 is reported as 1.67.
\<close>

theorem summarize_rounded_statistics:
  assumes "sorts_by_year qs" and "records \<noteq> []"
  shows "\<exists>res. summarize qs nm records = Inr (Some res)
           \<and> sorted (map Year (rows (data res)))
           \<and> mset (rows (data res)) = mset records
           \<and> Mean res = np_round (col_mean (map Value (rows (data res)))) 2
           \<and> Min' res = np_round (Min (Value ` set records)) 2
           \<and> Max' res = np_round (Max (Value ` set records)) 2
           \<and> Latest_year res = np_round (fl (of_int (Max (Year ` set records)))) 2
           \<and> (\<exists>r\<in>set records. Year r = Max (Year ` set records)
                  \<and> Latest_value res = np_round (Value r) 2)
           \<and> ((\<forall>r\<in>set records. - (2 ^ 46) \<le> Year r \<and> Year r \<le> 2 ^ 46)
                  \<longrightarrow> Latest_year res = of_int (Max (Year ` set records)))"
proof -
  let ?s = "qs records"
  have sne: "?s \<noteq> []" using assms by (simp add: sorts_by_year_Nil)
  have st: "set ?s = set records" by (rule sorts_by_year_set [OF assms(1)])
  have ne: "map Value ?s \<noteq> []" using sne by simp
  have mn: "col_min (map Value ?s) = Min (Value ` set records)"
    by (simp add: col_min_eq [OF ne] st)
  have mx: "col_max (map Value ?s) = Max (Value ` set records)"
    by (simp add: col_max_eq [OF ne] st)
  have "last ?s \<in> set ?s" using sne by (rule last_in_set)
  then have mem: "last ?s \<in> set records" by (simp only: st)
  have y: "Year (last ?s) = Max (Year ` set records)"
    by (rule last_sorted_rows_Max [OF assms])
  have ex: "np_round (fl (of_int (Max (Year ` set records)))) 2 = of_int (Max (Year ` set records))"
    if b: "\<forall>r\<in>set records. - (2 ^ 46) \<le> Year r \<and> Year r \<le> 2 ^ 46"
  proof -
    have "Max (Year ` set records) \<in> Year ` set records"
      using assms(2) by (intro Max_in) simp_all
    then obtain r where "r \<in> set records" and "Max (Year ` set records) = Year r" by auto
    then have "- (2 ^ 46) \<le> Max (Year ` set records)" and "Max (Year ` set records) \<le> 2 ^ 46"
      using b by simp_all
    then show ?thesis by (rule latest_year_exact)
  qed
  show ?thesis
    unfolding summarize_Cons [OF assms(2)]
    using mem y ex sorts_by_yearD [OF assms(1), of records]
    by (auto simp: mn mx)
qed

theorem summarize_rounded_statistics_witness:
  "\<exists>res. summarize demo_sort ''North Macedonia'' (spec_series (2016, 2023) thirds_rows)
            = Inr (Some res)
     \<and> sorted (map Year (rows (data res)))
     \<and> mset (rows (data res)) = mset (spec_series (2016, 2023) thirds_rows)
     \<and> Mean res = np_round (col_mean (map Value (rows (data res)))) 2
     \<and> Min' res = np_round (Min (Value ` set (spec_series (2016, 2023) thirds_rows))) 2
     \<and> Max' res = np_round (Max (Value ` set (spec_series (2016, 2023) thirds_rows))) 2
     \<and> (\<exists>r\<in>set (spec_series (2016, 2023) thirds_rows).
            Year r = Max (Year ` set (spec_series (2016, 2023) thirds_rows))
          \<and> Latest_value res = np_round (Value r) 2)
     \<and> Latest_year res = of_int (Max (Year ` set (spec_series (2016, 2023) thirds_rows)))"
proof -
  have ne: "spec_series (2016, 2023) thirds_rows \<noteq> []" by code_simp
  have b: "\<forall>r\<in>set (spec_series (2016, 2023) thirds_rows).
             - (2 ^ 46) \<le> Year r \<and> Year r \<le> 2 ^ 46"
    by code_simp
  show ?thesis
    using summarize_rounded_statistics [OF sorts_by_year_demo ne, of "''North Macedonia''"] b
    by blast
qed

theorem mean_is_rounded_counterexample:
  "fetch_country_data demo_sort demo_web ''MK'' ''MKD'' ''North Macedonia'' demo_indicator
     (2016, 2023)
     = Inr (Some \<lparr>Country = ''North Macedonia'', Mean = fl (167 / 100), Min' = 1, Max' = 2,
                  Latest_value = 2, Latest_year = 2022,
                  data = \<lparr>columns = [''Year'', ''Value''],
                          rows = [\<lparr>Year = 2020, Value = 1\<rparr>, \<lparr>Year = 2021, Value = 2\<rparr>,
                                  \<lparr>Year = 2022, Value = 2\<rparr>]\<rparr>\<rparr>)
   \<and> col_mean [1, 2, 2] = fl (5 / 3)
   \<and> fl (167 / 100) \<noteq> fl (5 / 3)"
  by code_simp






text \<open>
  C6, as the code has it. The run makes no configuration check and knows no
  configuration error; its entity list is the fixed list of six countries. It raises
  only through a failure of a single entity: when it raises, the exception is that of
  the fetch of one of its entities; when no fetch raises, it completes; and when the
  fetch of an entity raises after the entities before it went through, the run raises
  that exception.
\<close>

theorem run_raises_only_through_a_fetch:
  "length wb_countries = 6
   \<and> (raised (run_batch qs w ind yr es) = Some e
        \<longrightarrow> (\<exists>(nm, iso2, iso3) \<in> set es. fetch_country_data qs w iso2 iso3 nm ind yr = Inl e))
   \<and> ((\<forall>(nm, iso2, iso3) \<in> set es. \<not> isl (fetch_country_data qs w iso2 iso3 nm ind yr))
        \<longrightarrow> raised (run_batch qs w ind yr es) = None)
   \<and> (fetch_country_data qs w iso2 iso3 nm ind yr = Inl e
        \<longrightarrow> raised (run_batch qs w ind yr es1) = None
        \<longrightarrow> raised (run_batch qs w ind yr (es1 @ (nm, iso2, iso3) # es2)) = Some e)"
proof -
  have a: "length wb_countries = 6" by (simp add: wb_countries_def)
  have b: "\<exists>(nm, iso2, iso3) \<in> set es. fetch_country_data qs w iso2 iso3 nm ind yr = Inl e"
    if "raised (run_batch qs w ind yr es) = Some e"
    using that unfolding raised_run_batch by (rule batch_loop_raised_fetch)
  have c: "raised (run_batch qs w ind yr es) = None"
    if "\<forall>(nm, iso2, iso3) \<in> set es. \<not> isl (fetch_country_data qs w iso2 iso3 nm ind yr)"
    unfolding raised_run_batch using that by (intro batch_loop_not_raised) auto
  have d: "raised (run_batch qs w ind yr (es1 @ (nm, iso2, iso3) # es2)) = Some e"
    if "fetch_country_data qs w iso2 iso3 nm ind yr = Inl e"
      and "raised (run_batch qs w ind yr es1) = None"
    using outcome_run_raise [OF that, of es2] by (simp add: outcome_def)
  show ?thesis using a b c d by blast
qed

theorem run_raises_only_through_a_fetch_witness:
  "length wb_countries = 6
   \<and> (\<exists>(nm, iso2, iso3) \<in> set wb_countries.
         fetch_country_data demo_sort demo_web iso2 iso3 nm demo_indicator (2016, 2023)
           = Inl Timeout)
   \<and> raised (run_batch demo_sort demo_web demo_indicator (2016, 2023) demo_entities) = None
   \<and> raised (run_batch demo_sort demo_web demo_indicator (2016, 2023)
        ([(''Bosnia and Herzegovina'', ''BA'', ''BIH'')] @ (''Albania'', ''AL'', ''ALB'')
            # [(''Serbia'', ''RS'', ''SRB'')])) = Some Timeout"
proof -
  have r: "raised (run_batch demo_sort demo_web demo_indicator (2016, 2023) wb_countries)
             = Some Timeout"
    by code_simp
  have 1: "\<exists>(nm, iso2, iso3) \<in> set wb_countries.
         fetch_country_data demo_sort demo_web iso2 iso3 nm demo_indicator (2016, 2023)
           = Inl Timeout"
    using run_raises_only_through_a_fetch [where qs = demo_sort and w = demo_web
        and ind = demo_indicator and yr = "(2016, 2023)" and es = wb_countries and e = Timeout] r
    by blast
  have n: "\<forall>(nm, iso2, iso3) \<in> set demo_entities.
         \<not> isl (fetch_country_data demo_sort demo_web iso2 iso3 nm demo_indicator (2016, 2023))"
    by code_simp
  have 2: "raised (run_batch demo_sort demo_web demo_indicator (2016, 2023) demo_entities) = None"
    using run_raises_only_through_a_fetch [where qs = demo_sort and w = demo_web
        and ind = demo_indicator and yr = "(2016, 2023)" and es = demo_entities] n
    by blast
  have f: "fetch_country_data demo_sort demo_web ''AL'' ''ALB'' ''Albania'' demo_indicator
             (2016, 2023) = Inl Timeout"
    by code_simp
  have p: "raised (run_batch demo_sort demo_web demo_indicator (2016, 2023)
             [(''Bosnia and Herzegovina'', ''BA'', ''BIH'')]) = None"
    by code_simp
  have 3: "raised (run_batch demo_sort demo_web demo_indicator (2016, 2023)
        ([(''Bosnia and Herzegovina'', ''BA'', ''BIH'')] @ (''Albania'', ''AL'', ''ALB'')
            # [(''Serbia'', ''RS'', ''SRB'')])) = Some Timeout"
    using run_raises_only_through_a_fetch [where qs = demo_sort and w = demo_web
        and ind = demo_indicator and yr = "(2016, 2023)" and ?iso2.0 = "''AL''"
        and ?iso3.0 = "''ALB''" and nm = "''Albania''" and e = Timeout
        and ?es1.0 = "[(''Bosnia and Herzegovina'', ''BA'', ''BIH'')]"
        and ?es2.0 = "[(''Serbia'', ''RS'', ''SRB'')]"] f p
    by blast
  have a: "length wb_countries = 6"
    using run_raises_only_through_a_fetch [where es = "[]"] by blast
  show ?thesis using a 1 2 3 by blast
qed

theorem valid_configuration_raises_counterexample:
  "length wb_countries = 6
   \<and> fst (2016 :: int, 2023 :: int) \<le> snd (2016 :: int, 2023 :: int)
   \<and> fetch_country_data demo_sort demo_web ''AL'' ''ALB'' ''Albania'' demo_indicator (2016, 2023)
       = Inl Timeout
   \<and> raised (run_batch demo_sort demo_web demo_indicator (2016, 2023) wb_countries)
       = Some Timeout"
  by code_simp

text \<open>
  C7, as the code has it. The values handed to the progress bar never decrease. In a
  run that completes they are 0, then \<open>i / n\<close> before entity \<open>i\<close> (the number of
  entities done so far over the total), then 1.0 once, as the last value, after the
  last entity. A run that a fetch ends with an exception never reports 1.0.
\<close>

theorem progress_of_a_run:
  "sorted (progress (batch_of (run_batch qs w ind yr es)))
   \<and> (raised (run_batch qs w ind yr es) = None
        \<longrightarrow> progress (batch_of (run_batch qs w ind yr es))
              = 0 # map (fraction (length es)) [0 ..< length es] @ [1]
          \<and> count_list (progress (batch_of (run_batch qs w ind yr es))) 1 = 1
          \<and> last (progress (batch_of (run_batch qs w ind yr es))) = 1)
   \<and> (raised (run_batch qs w ind yr es) \<noteq> None
        \<longrightarrow> 1 \<notin> set (progress (batch_of (run_batch qs w ind yr es))))"
proof (cases "run_batch qs w ind yr es")
  case (Completed b)
  let ?fr = "map (fraction (length es)) [0 ..< length es]"
  have p: "progress b = 0 # ?fr @ [1]"
    by (rule run_batch_progress_Completed [OF Completed])
  have lt: "x < 1" if "x \<in> set ?fr" for x
    using that fraction_less_1 [of _ "length es"] by auto
  have ge: "0 \<le> x" if "x \<in> set ?fr" for x
    using that fraction_nonneg [of "length es"] by auto
  have "sorted (?fr @ [1])"
    using sorted_fractions [of "length es" 0 "length es"] lt
    by (auto simp: sorted_append less_imp_le simp del: map_upt_Suc upt_Suc)
  then have s: "sorted (progress b)"
    unfolding p using ge by (auto simp del: map_upt_Suc upt_Suc)
  have "1 \<notin> set ?fr" using lt by blast
  then have "count_list ?fr 1 = 0" by (rule count_notin)
  then have c: "count_list (progress b) 1 = 1"
    unfolding p by (simp del: map_upt_Suc upt_Suc)
  have l: "last (progress b) = 1" unfolding p by simp
  show ?thesis using Completed p s c l by simp
next
  case (Raised e b)
  from run_batch_progress_Raised [OF Raised] obtain k where k: "k < length es"
    and p: "progress b = 0 # map (fraction (length es)) [0 ..< Suc k]"
    by blast
  let ?fr = "map (fraction (length es)) [0 ..< Suc k]"
  have lt: "x < 1" if "x \<in> set ?fr" for x
  proof -
    from that have "x \<in> fraction (length es) ` set [0 ..< Suc k]"
      by (simp only: set_map)
    then obtain j where j: "j \<in> set [0 ..< Suc k]" and x: "x = fraction (length es) j"
      by (rule imageE)
    from j have "j < Suc k" by (simp only: set_upt atLeastLessThan_iff)
    then have "j < length es" using k by simp
    then show ?thesis unfolding x by (rule fraction_less_1)
  qed
  have ge: "0 \<le> x" if "x \<in> set ?fr" for x
    using that fraction_nonneg [of "length es"] by (auto simp del: upt_Suc)
  have s: "sorted (progress b)"
    unfolding p using sorted_fractions [of "length es" 0 "Suc k"] ge
    by (auto simp del: map_upt_Suc upt_Suc)
  have "1 \<notin> set ?fr" using lt by blast
  then have n: "1 \<notin> set (progress b)" unfolding p by (simp del: map_upt_Suc upt_Suc)
  show ?thesis using Raised s n by simp
qed

theorem progress_of_a_run_witness:
  "sorted (progress (batch_of (run_batch demo_sort demo_web demo_indicator (2016, 2023) demo_entities)))
   \<and> progress (batch_of (run_batch demo_sort demo_web demo_indicator (2016, 2023) demo_entities))
       = 0 # map (fraction (length demo_entities)) [0 ..< length demo_entities] @ [1]
   \<and> count_list (progress (batch_of (run_batch demo_sort demo_web demo_indicator (2016, 2023) demo_entities))) 1 = 1
   \<and> last (progress (batch_of (run_batch demo_sort demo_web demo_indicator (2016, 2023) demo_entities))) = 1
   \<and> 1 \<notin> set (progress (batch_of (run_batch demo_sort demo_web demo_indicator (2016, 2023) wb_countries)))"
proof -
  have a: "raised (run_batch demo_sort demo_web demo_indicator (2016, 2023) demo_entities) = None"
    by code_simp
  have b: "raised (run_batch demo_sort demo_web demo_indicator (2016, 2023) wb_countries) \<noteq> None"
    by code_simp
  show ?thesis
    using progress_of_a_run [of demo_sort demo_web demo_indicator "(2016, 2023)" demo_entities]
      progress_of_a_run [of demo_sort demo_web demo_indicator "(2016, 2023)" wb_countries] a b
    by blast
qed

theorem progress_never_complete_counterexample:
  "run_batch demo_sort demo_web demo_indicator (2016, 2023) wb_countries
     = Raised Timeout \<lparr>results = [], full_series = [], progress = [0, 0]\<rparr>
   \<and> count_list [0, 0 :: rat] 1 = 0"
  by code_simp

text \<open>
  C8. A payload with fewer than two elements, or whose second element is \<^verbatim>\<open>null\<close> or
  empty, makes \<open>fetch_country_data\<close> return \<open>None\<close>; so does a well-formed payload
  none of whose records has a value. The caller receives the same value in both cases.
\<close>

theorem malformed_payload_is_None:
  assumes "requests_get w (wb_url iso2 ind ''100'') = Inr resp" and "json resp = Some raw"
    and "length raw < 2 \<or> raw ! 1 = Null \<or> raw ! 1 = Rows []"
    and "requests_get w (wb_url iso2' ind ''100'') = Inr resp'"
    and "json resp' = Some [m, Rows rs]" and "\<forall>r\<in>set rs. wb_value r = None"
  shows "fetch_country_data qs w iso2 iso3 nm ind yr = Inr None
       \<and> fetch_country_data qs w iso2' iso3' nm' ind yr = Inr None"
proof -
  have a: "fetch_country_data qs w iso2 iso3 nm ind yr = Inr None"
    using assms(1-3) by (auto simp: fetch_country_data_def response_json_def)
  have "fetch_country_data qs w iso2' iso3' nm' ind yr =
          (case build_records yr rs of Inl e \<Rightarrow> Inl e | Inr records \<Rightarrow> summarize qs nm' records)"
    by (rule fetch_country_data_rows [where rs = rs, OF assms(4,5)]) simp_all
  then have b: "fetch_country_data qs w iso2' iso3' nm' ind yr = Inr None"
    using assms(6) by (simp add: build_records_all_absent summarize_Nil)
  show ?thesis using a b by simp
qed

theorem malformed_payload_is_None_witness:
  "fetch_country_data demo_sort demo_web ''XK'' ''XKX'' ''Kosovo'' demo_indicator (2016, 2023) = Inr None
   \<and> fetch_country_data demo_sort demo_web ''RS'' ''SRB'' ''Serbia'' demo_indicator (2016, 2023) = Inr None"
proof -
  have 1: "requests_get demo_web (wb_url ''XK'' demo_indicator ''100'')
             = Inr \<lparr>status_code = 200, json = Some [Meta]\<rparr>"
    by code_simp
  have 2: "json \<lparr>status_code = 200, json = Some [Meta]\<rparr> = Some [Meta]" by simp
  have 3: "length [Meta] < 2 \<or> [Meta] ! 1 = Null \<or> [Meta] ! 1 = Rows []" by simp
  have 4: "requests_get demo_web (wb_url ''RS'' demo_indicator ''100'')
             = Inr \<lparr>status_code = 200, json = Some [Meta, Rows null_rows]\<rparr>"
    by code_simp
  have 5: "json \<lparr>status_code = 200, json = Some [Meta, Rows null_rows]\<rparr>
             = Some [Meta, Rows null_rows]"
    by simp
  have 6: "\<forall>r\<in>set null_rows. wb_value r = None" by code_simp
  show ?thesis by (rule malformed_payload_is_None [OF 1 2 3 4 5 6])
qed

text \<open>
  C9. When the request succeeds and every record of the payload has a \<^verbatim>\<open>null\<close>
  value, \<open>fetch_wb_data\<close> raises \<open>KeyError\<close> for the column \<^verbatim>\<open>Year\<close>: the frame built
  from no record has no column to sort by.
\<close>

theorem all_null_raises_KeyError:
  assumes "requests_get w (wb_url country_code ind ''30'') = Inr resp"
    and "status_code resp < 400" and "json resp = Some raw"
    and "2 \<le> length raw" and "raw ! 1 = Rows rs"
    and "\<forall>r\<in>set rs. wb_value r = None"
  shows "fetch_wb_data qs w country_code ind indicator_name = Inl (KeyError ''Year'')"
  using assms
  by (simp add: fetch_wb_data_def raise_for_status_def response_json_def
      subscript1_def wb_rows_all_absent sort_values_Year_def DataFrame_def)

theorem all_null_raises_KeyError_witness:
  "fetch_wb_data demo_sort demo_web ''RS'' demo_indicator ''GDP (US$)'' = Inl (KeyError ''Year'')"
proof -
  have 1: "requests_get demo_web (wb_url ''RS'' demo_indicator ''30'')
             = Inr \<lparr>status_code = 200, json = Some [Meta, Rows null_rows]\<rparr>"
    by code_simp
  have 2: "status_code \<lparr>status_code = 200, json = Some [Meta, Rows null_rows]\<rparr> < 400"
    by simp
  have 3: "json \<lparr>status_code = 200, json = Some [Meta, Rows null_rows]\<rparr>
             = Some [Meta, Rows null_rows]"
    by simp
  have 4: "2 \<le> length [Meta, Rows null_rows]" by simp
  have 5: "[Meta, Rows null_rows] ! 1 = Rows null_rows" by simp
  have 6: "\<forall>r\<in>set null_rows. wb_value r = None" by code_simp
  show ?thesis by (rule all_null_raises_KeyError [OF 1 2 3 4 5 6])
qed

text \<open>
  C10. Every headline gets one row with one label, which is Positive exactly when the
  compound score exceeds 0.05, Negative exactly when it is below -0.05 and Neutral
  otherwise (0.05 being the double of the source's literal); and the three counters
  add up to the number of headlines.
\<close>

theorem sentiment_labels_and_counts:
  "map Headline (sentiment_data analyzer headlines) = headlines
   \<and> map Sentiment (sentiment_data analyzer headlines)
       = map (\<lambda>h. label_of (analyzer h)) headlines
   \<and> (label_of c = ''Positive'' \<longleftrightarrow> fl (5 / 100) < c)
   \<and> (label_of c = ''Negative'' \<longleftrightarrow> c < - fl (5 / 100))
   \<and> (label_of c = ''Neutral'' \<longleftrightarrow> - fl (5 / 100) \<le> c \<and> c \<le> fl (5 / 100))
   \<and> n_pos (sentiment_data analyzer headlines) + n_neu (sentiment_data analyzer headlines)
       + n_neg (sentiment_data analyzer headlines) = length headlines"
proof -
  have t: "0 \<le> fl (5 / 100)" by (rule fl_nonneg) simp
  have a: "map Headline (sentiment_data analyzer headlines) = headlines"
    by (simp add: sentiment_data_def Let_def comp_def)
  have b: "map Sentiment (sentiment_data analyzer headlines)
             = map (\<lambda>h. label_of (analyzer h)) headlines"
    by (simp add: sentiment_data_def Let_def comp_def)
  have c: "(label_of c = ''Positive'' \<longleftrightarrow> fl (5 / 100) < c)
         \<and> (label_of c = ''Negative'' \<longleftrightarrow> c < - fl (5 / 100))
         \<and> (label_of c = ''Neutral'' \<longleftrightarrow> - fl (5 / 100) \<le> c \<and> c \<le> fl (5 / 100))"
    using t by (auto simp: label_of_def)
  have d: "n_pos sd + n_neu sd + n_neg sd = length sd" for sd
    using t by (induction sd) (auto simp: n_pos_def n_neu_def n_neg_def)
  have e: "length (sentiment_data analyzer headlines) = length headlines"
    by (simp add: sentiment_data_def)
  show ?thesis using a b c d [of "sentiment_data analyzer headlines"] e by simp
qed

theorem sentiment_labels_and_counts_witness:
  "map Sentiment (sentiment_data demo_analyzer demo_headlines)
     = [''Positive'', ''Neutral'', ''Negative'']
   \<and> n_pos (sentiment_data demo_analyzer demo_headlines)
       + n_neu (sentiment_data demo_analyzer demo_headlines)
       + n_neg (sentiment_data demo_analyzer demo_headlines) = 3"
proof -
  have l: "map (\<lambda>h. label_of (demo_analyzer h)) demo_headlines
             = [''Positive'', ''Neutral'', ''Negative'']"
    by code_simp
  have n: "length demo_headlines = 3" by code_simp
  show ?thesis
    using sentiment_labels_and_counts [of demo_analyzer demo_headlines 0] l n by simp
qed

end
